theory Spec2Isabelle
  imports Main
begin

section \<open>Data model of usePartitionHealthData.tsx\<close>

text \<open>
  The three partition states the file uses (the enum itself is imported from
  \<^verbatim>\<open>../partitions/PartitionStatus\<close>).
\<close>

datatype PartitionState = SUCCESS | SUCCESS_MISSING | MISSING

text \<open>
  What a call can raise: the \<^verbatim>\<open>TypeError\<close> of JavaScript when a property of
  \<^verbatim>\<open>undefined\<close> is read (\<^verbatim>\<open>dimensions[1].partitionKeys\<close> with one dimension,
  \<^verbatim>\<open>r.subranges!.some\<close> on a range without subranges), and the
  \<^verbatim>\<open>Error('stateForSingleDimension asked for third dimension')\<close> thrown in line 135.
\<close>

datatype error = TypeError | UnsupportedDimension

record PartitionHealthDimension =
  name :: string
  partitionKeys :: "string list"

text \<open>An asset key is the object \<^verbatim>\<open>{path: string[]}\<close>; it is represented by its path.\<close>

type_synonym AssetKey = "string list"

record KeyIdx =
  key :: string
  idx :: int

text \<open>
  The type \<^verbatim>\<open>Range\<close> of lines 154-159. The fields \<^verbatim>\<open>end\<close> and \<^verbatim>\<open>value\<close> are
  called \<open>endR\<close> and \<open>valueR\<close>; an absent \<^verbatim>\<open>subranges\<close> field is \<open>None\<close>.
\<close>

datatype Range =
  Range (start: KeyIdx) (endR: KeyIdx) (valueR: PartitionState) (subranges: "Range list option")

text \<open>The wire format: \<^verbatim>\<open>{start, end}\<close> and the two kinds of range of the GraphQL fragment.\<close>

record KeyRange =
  startKey :: string
  endKey :: string

datatype MaterializedRange =
  MaterializedPartitionRange1D KeyRange
| MaterializedPartitionRange2D (primaryDimStart: string) (primaryDimEnd: string)
    (secondaryDimRanges: "KeyRange list")

text \<open>
  The query result: an asset node with its dimensions and materialized ranges, or any
  other type of \<^verbatim>\<open>assetNodeOrError\<close>.
\<close>

datatype PartitionHealthQueryQuery =
  AssetNode (partitionKeysByDimension: "PartitionHealthDimension list")
    (materializedPartitions: "MaterializedRange list")
| NotAssetNode

text \<open>
  The object \<^verbatim>\<open>buildPartitionHealthData\<close> returns. Its two methods are closures over
  \<^verbatim>\<open>isRangeDataInverted\<close>, the re-ordered \<^verbatim>\<open>dimensions\<close> and \<^verbatim>\<open>ranges\<close>; the
  record keeps these three captured variables (the re-ordered list as
  \<open>rangeDimensions\<close>) beside the exposed fields \<open>assetKey\<close> and \<open>dimensions\<close>.
\<close>

record PartitionHealthData =
  assetKey :: AssetKey
  dimensions :: "PartitionHealthDimension list"
  isRangeDataInverted :: bool
  rangeDimensions :: "PartitionHealthDimension list"
  ranges :: "Range list"

section \<open>JavaScript array primitives\<close>

text \<open>\<^verbatim>\<open>Array.prototype.indexOf\<close>: the first position of the element, \<open>-1\<close> when absent.\<close>

fun indexOf :: "'a list \<Rightarrow> 'a \<Rightarrow> int" where
  "indexOf [] x = -1"
| "indexOf (y # ys) x =
     (if y = x then 0 else (let i = indexOf ys x in if i < 0 then -1 else i + 1))"

text \<open>Reading \<^verbatim>\<open>xs[i]\<close>: \<^verbatim>\<open>undefined\<close> (here \<open>None\<close>) out of range.\<close>

definition at :: "'a list \<Rightarrow> nat \<Rightarrow> 'a option" where
  "at xs i = (if i < length xs then Some (xs ! i) else None)"

text \<open>\<^verbatim>\<open>dimensions[i].partitionKeys\<close>, a \<^verbatim>\<open>TypeError\<close> when there is no dimension \<open>i\<close>.\<close>

definition dimKeys :: "PartitionHealthDimension list \<Rightarrow> nat \<Rightarrow> error + string list" where
  "dimKeys ds i = (case at ds i of None \<Rightarrow> Inl TypeError | Some d \<Rightarrow> Inr (partitionKeys d))"

text \<open>
  The test \<^verbatim>\<open>r.start.idx <= i && r.end.idx >= i\<close>. A comparison with \<^verbatim>\<open>undefined\<close>
  is false in JavaScript.
\<close>

definition covers :: "Range \<Rightarrow> int option \<Rightarrow> bool" where
  "covers r i = (case i of None \<Rightarrow> False | Some j \<Rightarrow> idx (start r) \<le> j \<and> idx (endR r) \<ge> j)"

section \<open>addIndexes (lines 161-207)\<close>

definition indexed :: "string list \<Rightarrow> string \<Rightarrow> KeyIdx" where
  "indexed ks k = \<lparr>key = k, idx = indexOf ks k\<rparr>"

definition subrangeOf :: "string list \<Rightarrow> KeyRange \<Rightarrow> Range" where
  "subrangeOf ks sub = Range (indexed ks (startKey sub)) (indexed ks (endKey sub)) SUCCESS None"

text \<open>
  One iteration of the loop. For a 2D range the callback of \<^verbatim>\<open>secondaryDimRanges.map\<close>
  reads \<^verbatim>\<open>dimensions[1]\<close> only when there is a secondary range, and the test of the
  \<^verbatim>\<open>value\<close> field reads it only when there is exactly one (\<^verbatim>\<open>&&\<close> short-circuits).
\<close>

fun addIndex :: "PartitionHealthDimension list \<Rightarrow> MaterializedRange \<Rightarrow> error + Range" where
  "addIndex ds (MaterializedPartitionRange1D rng) =
     (case dimKeys ds 0 of
        Inl e \<Rightarrow> Inl e
      | Inr ks0 \<Rightarrow>
          Inr (Range (indexed ks0 (startKey rng)) (indexed ks0 (endKey rng)) SUCCESS None))"
| "addIndex ds (MaterializedPartitionRange2D pstart pend secondary) =
     (case (if secondary = [] then Inr ([], 0)
            else case dimKeys ds 1 of
                   Inl e \<Rightarrow> Inl e
                 | Inr ks1 \<Rightarrow> Inr (map (subrangeOf ks1) secondary, int (length ks1))) of
        Inl e \<Rightarrow> Inl e
      | Inr (subs, n1) \<Rightarrow>
          (case dimKeys ds 0 of
             Inl e \<Rightarrow> Inl e
           | Inr ks0 \<Rightarrow>
               Inr (Range (indexed ks0 pstart) (indexed ks0 pend)
                      (if length subs = 1 \<and> idx (start (hd subs)) = 0
                          \<and> idx (endR (hd subs)) = n1 - 1
                       then SUCCESS else SUCCESS_MISSING)
                      (Some subs))))"

fun addIndexes ::
  "PartitionHealthDimension list \<Rightarrow> MaterializedRange list \<Rightarrow> error + Range list" where
  "addIndexes ds [] = Inr []"
| "addIndexes ds (rng # rest) =
     (case addIndex ds rng of
        Inl e \<Rightarrow> Inl e
      | Inr r \<Rightarrow> (case addIndexes ds rest of Inl e \<Rightarrow> Inl e | Inr rs \<Rightarrow> Inr (r # rs)))"

section \<open>buildPartitionHealthData (lines 46-149)\<close>

text \<open>
  \<^verbatim>\<open>isTimeseriesDimension\<close> is imported from \<^verbatim>\<open>./MultipartitioningSupport\<close>; it is
  the parameter \<open>isTS\<close>. The methods of the result are the functions below, applied to
  the record.
\<close>

definition buildPartitionHealthData ::
  "(PartitionHealthDimension \<Rightarrow> bool) \<Rightarrow> PartitionHealthQueryQuery \<Rightarrow> AssetKey
     \<Rightarrow> error + PartitionHealthData" where
  "buildPartitionHealthData isTS data loadKey =
     (let dims = (case data of AssetNode ds m \<Rightarrow> ds | NotAssetNode \<Rightarrow> []);
          inverted = (length dims = 2 \<and> isTS (dims ! 1));
          ds = (if inverted then [dims ! 1, dims ! 0] else dims)
      in case addIndexes ds (case data of AssetNode ds m \<Rightarrow> m | NotAssetNode \<Rightarrow> []) of
           Inl e \<Rightarrow> Inl e
         | Inr rs \<Rightarrow>
             Inr \<lparr>assetKey = loadKey, dimensions = dims, isRangeDataInverted = inverted,
                  rangeDimensions = ds, ranges = rs\<rparr>)"

text \<open>
  \<^verbatim>\<open>dimensionKeys.map((key, idx) => dimensions[idx].partitionKeys.indexOf(key))\<close>: a
  \<^verbatim>\<open>TypeError\<close> when there are more keys than dimensions.
\<close>

fun dIndexesOf :: "PartitionHealthDimension list \<Rightarrow> string list \<Rightarrow> error + int list" where
  "dIndexesOf ds [] = Inr []"
| "dIndexesOf [] (k # ks) = Inl TypeError"
| "dIndexesOf (d # ds) (k # ks) =
     (case dIndexesOf ds ks of
        Inl e \<Rightarrow> Inl e
      | Inr ixs \<Rightarrow> Inr (indexOf (partitionKeys d) k # ixs))"

definition stateForKeyRangeOrdering ::
  "PartitionHealthData \<Rightarrow> string list \<Rightarrow> error + PartitionState" where
  "stateForKeyRangeOrdering h dimensionKeys =
     (case dIndexesOf (rangeDimensions h) dimensionKeys of
        Inl e \<Rightarrow> Inl e
      | Inr dIndexes \<Rightarrow>
          (case find (\<lambda>r. covers r (at dIndexes 0)) (ranges h) of
             None \<Rightarrow> Inr MISSING
           | Some d0Range \<Rightarrow>
               (case subranges d0Range of
                  None \<Rightarrow> Inr SUCCESS
                | Some subs \<Rightarrow>
                    (case find (\<lambda>r. covers r (at dIndexes 1)) subs of
                       None \<Rightarrow> Inr MISSING
                     | Some d1Range \<Rightarrow> Inr SUCCESS))))"

text \<open>
  Line 72. \<^verbatim>\<open>reverse()\<close> also reverses the caller's array in place; the model keeps
  the returned state only.
\<close>

definition stateForKey :: "PartitionHealthData \<Rightarrow> string list \<Rightarrow> error + PartitionState" where
  "stateForKey h dimensionKeys =
     stateForKeyRangeOrdering h
       (if isRangeDataInverted h then rev dimensionKeys else dimensionKeys)"

text \<open>
  \<^verbatim>\<open>otherDimensionSelectedKeys.map((k) => stateForKeyRangeOrdering([dimensionKey, k]))\<close>,
  stopping at the first call that throws.
\<close>

fun statesFor ::
  "PartitionHealthData \<Rightarrow> string \<Rightarrow> string list \<Rightarrow> error + PartitionState list" where
  "statesFor h dimensionKey [] = Inr []"
| "statesFor h dimensionKey (k # ks) =
     (case stateForKeyRangeOrdering h [dimensionKey, k] of
        Inl e \<Rightarrow> Inl e
      | Inr s \<Rightarrow>
          (case statesFor h dimensionKey ks of Inl e \<Rightarrow> Inl e | Inr ss \<Rightarrow> Inr (s # ss)))"

text \<open>
  \<^verbatim>\<open>ranges.filter((r) => r.subranges!.some(...))\<close>: the non-null assertion is erased
  by the compiler, so a range without subranges makes the callback throw.
\<close>

fun rangesContainingSubrange :: "Range list \<Rightarrow> int \<Rightarrow> error + Range list" where
  "rangesContainingSubrange [] d1Idx = Inr []"
| "rangesContainingSubrange (r # rs) d1Idx =
     (case subranges r of
        None \<Rightarrow> Inl TypeError
      | Some subs \<Rightarrow>
          (case rangesContainingSubrange rs d1Idx of
             Inl e \<Rightarrow> Inl e
           | Inr ms \<Rightarrow>
               Inr (if list_ex (\<lambda>sr. covers sr (Some d1Idx)) subs then r # ms else ms)))"

text \<open>
  \<^verbatim>\<open>mergedStates\<close> is imported from \<^verbatim>\<open>./MultipartitioningSupport\<close>; it is the
  parameter \<open>mergedStates\<close>. \<open>None\<close> for \<open>otherDimensionSelectedKeys\<close> is the omitted
  argument.
\<close>

definition stateForSingleDimension ::
  "(PartitionState list \<Rightarrow> PartitionState) \<Rightarrow> PartitionHealthData \<Rightarrow> int \<Rightarrow> string
     \<Rightarrow> string list option \<Rightarrow> error + PartitionState" where
  "stateForSingleDimension mergedStates h dimensionIdx0 dimensionKey otherDimensionSelectedKeys =
     (let dimensionIdx = (if isRangeDataInverted h then 1 - dimensionIdx0 else dimensionIdx0)
      in if dimensionIdx = 0 \<and> length (rangeDimensions h) = 1 then
           stateForKeyRangeOrdering h [dimensionKey]
         else if dimensionIdx = 0 then
           (case otherDimensionSelectedKeys of
              None \<Rightarrow>
                (case dimKeys (rangeDimensions h) 0 of
                   Inl e \<Rightarrow> Inl e
                 | Inr ks0 \<Rightarrow>
                     (case find (\<lambda>r. covers r (Some (indexOf ks0 dimensionKey))) (ranges h) of
                        None \<Rightarrow> Inr MISSING
                      | Some d0Range \<Rightarrow> Inr (valueR d0Range)))
            | Some others \<Rightarrow>
                (case statesFor h dimensionKey others of
                   Inl e \<Rightarrow> Inl e
                 | Inr ss \<Rightarrow> Inr (mergedStates ss)))
         else if dimensionIdx = 1 then
           (case (case otherDimensionSelectedKeys of
                    None \<Rightarrow> Inr None
                  | Some others \<Rightarrow>
                      if others = [] then Inr (Some [])
                      else (case dimKeys (rangeDimensions h) 0 of
                              Inl e \<Rightarrow> Inl e
                            | Inr ks0 \<Rightarrow> Inr (Some (map (indexOf ks0) others)))) of
              Inl e \<Rightarrow> Inl e
            | Inr d0Idxs \<Rightarrow>
                (case dimKeys (rangeDimensions h) 1 of
                   Inl e \<Rightarrow> Inl e
                 | Inr ks1 \<Rightarrow>
                     (case rangesContainingSubrange (ranges h) (indexOf ks1 dimensionKey) of
                        Inl e \<Rightarrow> Inl e
                      | Inr matching \<Rightarrow>
                          (let all = (case d0Idxs of
                                        None \<Rightarrow> length matching = length (ranges h)
                                      | Some ixs \<Rightarrow>
                                          list_all (\<lambda>i. list_ex (\<lambda>r. covers r (Some i)) matching) ixs)
                           in if all then Inr SUCCESS
                              else if length matching > 0 then Inr SUCCESS_MISSING
                              else Inr MISSING))))
         else Inl UnsupportedDimension)"

section \<open>usePartitionHealthData (lines 213-255)\<close>

text \<open>
  An element of the hook's \<^verbatim>\<open>result\<close> state:
  \<^verbatim>\<open>PartitionHealthData & {fetchedAt: string}\<close>.
\<close>

record CacheEntry = PartitionHealthData +
  fetchedAt :: string

text \<open>
  The state of one mounted hook: the React state \<^verbatim>\<open>result\<close>, the dependency array
  \<^verbatim>\<open>[client, missingKeyJSON, assetLastMaterializedAt]\<close> of the last run of the first
  \<^verbatim>\<open>useMemo\<close> (\<open>None\<close> before the first render; \<^verbatim>\<open>client\<close> never changes), and
  the calls of \<^verbatim>\<open>run\<close> that are suspended at \<^verbatim>\<open>await client.query\<close>, each with
  the \<^verbatim>\<open>loadKey\<close> and the \<^verbatim>\<open>assetLastMaterializedAt\<close> its closure captured.
  \<^verbatim>\<open>JSON.stringify\<close> is injective on asset keys and \<^verbatim>\<open>JSON.parse\<close> inverts it, so
  the JSON strings are represented by the keys themselves; \<^verbatim>\<open>isEqual\<close> is
  structural equality.
\<close>

record HookState =
  result :: "CacheEntry list"
  memoDeps :: "(AssetKey option \<times> string) option"
  inflight :: "(AssetKey \<times> string) list"

definition initialState :: HookState where
  "initialState = \<lparr>result = [], memoDeps = None, inflight = []\<rparr>"

text \<open>Lines 219-224: the first requested key without an entry fetched at the current hint.\<close>

definition missingKeyJSON :: "CacheEntry list \<Rightarrow> AssetKey list \<Rightarrow> string \<Rightarrow> AssetKey option" where
  "missingKeyJSON res assetKeys assetLastMaterializedAt =
     find (\<lambda>k. \<not> list_ex (\<lambda>r. assetKey r = k \<and> fetchedAt r = assetLastMaterializedAt) res)
       assetKeys"

text \<open>
  One render, that is one call of the hook: the first \<^verbatim>\<open>useMemo\<close> runs its body when
  its dependencies have changed and then starts a fetch unless no key is missing; the
  call returns the entries of the requested keys (lines 251-254) and the new state.
\<close>

definition usePartitionHealthData ::
  "HookState \<Rightarrow> AssetKey list \<Rightarrow> string \<Rightarrow> CacheEntry list \<times> HookState" where
  "usePartitionHealthData s assetKeys assetLastMaterializedAt =
     (let missing = missingKeyJSON (result s) assetKeys assetLastMaterializedAt;
          deps = (missing, assetLastMaterializedAt);
          s' = (if memoDeps s = Some deps then s
                else s\<lparr>memoDeps := Some deps,
                       inflight := (case missing of
                                      None \<Rightarrow> inflight s
                                    | Some loadKey \<Rightarrow>
                                        inflight s @ [(loadKey, assetLastMaterializedAt)])\<rparr>)
      in (filter (\<lambda>r. assetKey r \<in> set assetKeys) (result s), s'))"

text \<open>
  Lines 242-246, run when the query of the \<open>i\<close>-th suspended \<^verbatim>\<open>run\<close> resolves with
  \<open>data\<close>. When \<^verbatim>\<open>buildPartitionHealthData\<close> throws, the promise of \<^verbatim>\<open>run\<close>
  rejects and \<^verbatim>\<open>setResult\<close> is not called.
\<close>

definition removeAt :: "nat \<Rightarrow> 'a list \<Rightarrow> 'a list" where
  "removeAt i xs = take i xs @ drop (Suc i) xs"

definition queryResolved ::
  "(PartitionHealthDimension \<Rightarrow> bool) \<Rightarrow> HookState \<Rightarrow> nat \<Rightarrow> PartitionHealthQueryQuery
     \<Rightarrow> HookState" where
  "queryResolved isTS s i data =
     (case at (inflight s) i of
        None \<Rightarrow> s
      | Some (loadKey, assetLastMaterializedAt) \<Rightarrow>
          (case buildPartitionHealthData isTS data loadKey of
             Inl e \<Rightarrow> s\<lparr>inflight := removeAt i (inflight s)\<rparr>
           | Inr loaded \<Rightarrow>
               s\<lparr>inflight := removeAt i (inflight s),
                 result := filter (\<lambda>r. assetKey r \<noteq> loadKey) (result s)
                           @ [PartitionHealthData.extend loaded
                                \<lparr>fetchedAt = assetLastMaterializedAt\<rparr>]\<rparr>))"

text \<open>When the query of the \<open>i\<close>-th suspended \<^verbatim>\<open>run\<close> rejects, nothing is stored.\<close>

definition queryRejected :: "HookState \<Rightarrow> nat \<Rightarrow> HookState" where
  "queryRejected s i = s\<lparr>inflight := removeAt i (inflight s)\<rparr>"

text \<open>
  Executions of the hook: renders with the caller's current arguments, interleaved
  with the completions of the queries in flight, in any order.
\<close>

datatype event =
  Request "AssetKey list" string
| Resolved nat PartitionHealthQueryQuery
| Rejected nat

fun step :: "(PartitionHealthDimension \<Rightarrow> bool) \<Rightarrow> HookState \<Rightarrow> event \<Rightarrow> HookState" where
  "step isTS s (Request assetKeys hint) = snd (usePartitionHealthData s assetKeys hint)"
| "step isTS s (Resolved i data) = queryResolved isTS s i data"
| "step isTS s (Rejected i) = queryRejected s i"

fun run :: "(PartitionHealthDimension \<Rightarrow> bool) \<Rightarrow> HookState \<Rightarrow> event list \<Rightarrow> HookState" where
  "run isTS s [] = s"
| "run isTS s (ev # evs) = run isTS (step isTS s ev) evs"

section \<open>Notions of the specification\<close>

text \<open>
  The data model of the index asks for primary ranges that do not overlap: no index
  lies in the intervals of two entries of the list.
\<close>

fun noOverlap :: "Range list \<Rightarrow> bool" where
  "noOverlap [] = True"
| "noOverlap (r # rs) =
     ((\<forall>r' \<in> set rs. idx (endR r) < idx (start r') \<or> idx (endR r') < idx (start r))
      \<and> noOverlap rs)"

text \<open>A primary range matches an index of dimension 1 when one of its secondary ranges covers it.\<close>

definition matches :: "int \<Rightarrow> Range \<Rightarrow> bool" where
  "matches d1Idx r =
     (case subranges r of None \<Rightarrow> False | Some subs \<Rightarrow> \<exists>sr \<in> set subs. covers sr (Some d1Idx))"

text \<open>A range of the 2D wire format.\<close>

fun is2D :: "MaterializedRange \<Rightarrow> bool" where
  "is2D (MaterializedPartitionRange1D rng) = False"
| "is2D (MaterializedPartitionRange2D pstart pend secondary) = True"

text \<open>
  The order of the dimensions on the wire (line 58): the time dimension first when it
  is declared second.
\<close>

definition wireOrder ::
  "(PartitionHealthDimension \<Rightarrow> bool) \<Rightarrow> PartitionHealthDimension list
     \<Rightarrow> PartitionHealthDimension list" where
  "wireOrder isTS dims =
     (if length dims = 2 \<and> isTS (dims ! 1) then [dims ! 1, dims ! 0] else dims)"

text \<open>
  The payload that declares the whole key space as one full range, for dimensions in
  wire order: one range from the first to the last key of the only dimension, or one
  primary range over the whole primary dimension with one secondary range over the
  whole secondary dimension.
\<close>

definition wholeRange :: "PartitionHealthDimension \<Rightarrow> KeyRange" where
  "wholeRange d = \<lparr>startKey = hd (partitionKeys d), endKey = last (partitionKeys d)\<rparr>"

fun fullPayload :: "PartitionHealthDimension list \<Rightarrow> MaterializedRange list" where
  "fullPayload [d] = [MaterializedPartitionRange1D (wholeRange d)]"
| "fullPayload [p, s] =
     [MaterializedPartitionRange2D (hd (partitionKeys p)) (last (partitionKeys p)) [wholeRange s]]"
| "fullPayload ds = []"

text \<open>
  No fetch for the key \<open>A\<close> resolves during the events \<open>evs\<close>, run from the state \<open>s\<close>.
\<close>

fun noneResolvedFor ::
  "(PartitionHealthDimension \<Rightarrow> bool) \<Rightarrow> AssetKey \<Rightarrow> HookState \<Rightarrow> event list \<Rightarrow> bool" where
  "noneResolvedFor isTS A s [] = True"
| "noneResolvedFor isTS A s (ev # evs) =
     ((case ev of
         Resolved i data \<Rightarrow> (case at (inflight s) i of None \<Rightarrow> True | Some (k, h) \<Rightarrow> k \<noteq> A)
       | _ \<Rightarrow> True)
      \<and> noneResolvedFor isTS A (step isTS s ev) evs)"

subsection \<open>Stand-ins for the two imported functions, for the concrete examples\<close>

text \<open>
  Modelled from the spec: \<^verbatim>\<open>mergedStates\<close> of \<^verbatim>\<open>./MultipartitioningSupport\<close>, which
  is not among the sources: all \<open>SUCCESS\<close> gives \<open>SUCCESS\<close>, all \<open>MISSING\<close> gives
  \<open>MISSING\<close>, mixed gives \<open>SUCCESS_MISSING\<close>. The theorems below hold for every
  function in its place; this one instantiates them in the examples.
\<close>

definition mergedStates :: "PartitionState list \<Rightarrow> PartitionState" where
  "mergedStates states =
     (if list_all (\<lambda>s. s = SUCCESS) states then SUCCESS
      else if list_all (\<lambda>s. s = MISSING) states then MISSING
      else SUCCESS_MISSING)"

text \<open>
  Modelled from the spec: \<^verbatim>\<open>isTimeseriesDimension\<close> of
  \<^verbatim>\<open>./MultipartitioningSupport\<close>, which is not among the sources and of which the
  spec says only that it recognises a time-like dimension. The theorems below hold
  for every predicate in its place; the examples use two: no dimension is time-like,
  and the dimension named \<^verbatim>\<open>date\<close> is.
\<close>

definition noTimeseries :: "PartitionHealthDimension \<Rightarrow> bool" where
  "noTimeseries d = False"

definition dateIsTimeseries :: "PartitionHealthDimension \<Rightarrow> bool" where
  "dateIsTimeseries d = (name d = ''date'')"

subsection \<open>Example data\<close>

definition letters :: PartitionHealthDimension where
  "letters = \<lparr>name = ''letters'', partitionKeys = [''a'', ''b'']\<rparr>"

definition colors :: PartitionHealthDimension where
  "colors = \<lparr>name = ''colors'', partitionKeys = [''x'', ''y'']\<rparr>"

definition dates :: PartitionHealthDimension where
  "dates = \<lparr>name = ''date'', partitionKeys = [''x'', ''y'']\<rparr>"

text \<open>
  An index whose range data is inverted: the payload has the date dimension as its
  primary axis, and one primary range \<^verbatim>\<open>x..x\<close> with the secondary range \<^verbatim>\<open>a..b\<close>.
\<close>

definition invertedPayload :: "MaterializedRange list" where
  "invertedPayload =
     [MaterializedPartitionRange2D ''x'' ''x'' [\<lparr>startKey = ''a'', endKey = ''b''\<rparr>]]"

definition invertedIndex :: PartitionHealthData where
  "invertedIndex =
     \<lparr>assetKey = [''asset''], dimensions = [letters, dates], isRangeDataInverted = True,
      rangeDimensions = [dates, letters],
      ranges = [Range \<lparr>key = ''x'', idx = 0\<rparr> \<lparr>key = ''x'', idx = 0\<rparr> SUCCESS
                  (Some [Range \<lparr>key = ''a'', idx = 0\<rparr> \<lparr>key = ''b'', idx = 1\<rparr> SUCCESS None])]\<rparr>"

text \<open>
  A payload in declared order whose two primary ranges \<^verbatim>\<open>a..a\<close> and \<^verbatim>\<open>b..b\<close> hold
  the secondary ranges \<^verbatim>\<open>x..x\<close> and \<^verbatim>\<open>y..y\<close>, and its index.
\<close>

definition diagonalPayload :: "MaterializedRange list" where
  "diagonalPayload =
     [MaterializedPartitionRange2D ''a'' ''a'' [\<lparr>startKey = ''x'', endKey = ''x''\<rparr>],
      MaterializedPartitionRange2D ''b'' ''b'' [\<lparr>startKey = ''y'', endKey = ''y''\<rparr>]]"

definition diagonalIndex :: PartitionHealthData where
  "diagonalIndex =
     \<lparr>assetKey = [''asset''], dimensions = [letters, colors], isRangeDataInverted = False,
      rangeDimensions = [letters, colors],
      ranges = [Range \<lparr>key = ''a'', idx = 0\<rparr> \<lparr>key = ''a'', idx = 0\<rparr> SUCCESS_MISSING
                  (Some [Range \<lparr>key = ''x'', idx = 0\<rparr> \<lparr>key = ''x'', idx = 0\<rparr> SUCCESS None]),
                Range \<lparr>key = ''b'', idx = 1\<rparr> \<lparr>key = ''b'', idx = 1\<rparr> SUCCESS_MISSING
                  (Some [Range \<lparr>key = ''y'', idx = 1\<rparr> \<lparr>key = ''y'', idx = 1\<rparr> SUCCESS None])]\<rparr>"

text \<open>
  A payload whose only primary range \<^verbatim>\<open>a..b\<close> holds the two contiguous secondary
  ranges \<^verbatim>\<open>x..x\<close> and \<^verbatim>\<open>y..y\<close>, which together span the colors.
\<close>

definition splitPayload :: "MaterializedRange list" where
  "splitPayload =
     [MaterializedPartitionRange2D ''a'' ''b''
        [\<lparr>startKey = ''x'', endKey = ''x''\<rparr>, \<lparr>startKey = ''y'', endKey = ''y''\<rparr>]]"

text \<open>The index of a two-dimensional asset none of whose partitions is materialized.\<close>

definition emptyIndex :: PartitionHealthData where
  "emptyIndex =
     \<lparr>assetKey = [''asset''], dimensions = [letters, colors], isRangeDataInverted = False,
      rangeDimensions = [letters, colors], ranges = []\<rparr>"

text \<open>
  A payload whose two primary ranges are both \<^verbatim>\<open>a..b\<close>, the first with the secondary
  range \<^verbatim>\<open>x..x\<close> and the second with \<^verbatim>\<open>y..y\<close>, and its index.
\<close>

definition overlappingPayload :: "MaterializedRange list" where
  "overlappingPayload =
     [MaterializedPartitionRange2D ''a'' ''b'' [\<lparr>startKey = ''x'', endKey = ''x''\<rparr>],
      MaterializedPartitionRange2D ''a'' ''b'' [\<lparr>startKey = ''y'', endKey = ''y''\<rparr>]]"

definition overlappingIndex :: PartitionHealthData where
  "overlappingIndex =
     \<lparr>assetKey = [''asset''], dimensions = [letters, colors], isRangeDataInverted = False,
      rangeDimensions = [letters, colors],
      ranges = [Range \<lparr>key = ''a'', idx = 0\<rparr> \<lparr>key = ''b'', idx = 1\<rparr> SUCCESS_MISSING
                  (Some [Range \<lparr>key = ''x'', idx = 0\<rparr> \<lparr>key = ''x'', idx = 0\<rparr> SUCCESS None]),
                Range \<lparr>key = ''a'', idx = 0\<rparr> \<lparr>key = ''b'', idx = 1\<rparr> SUCCESS_MISSING
                  (Some [Range \<lparr>key = ''y'', idx = 1\<rparr> \<lparr>key = ''y'', idx = 1\<rparr> SUCCESS None])]\<rparr>"

subsection \<open>Example executions of the hook\<close>

text \<open>
  Two responses for the asset key \<^verbatim>\<open>{path: ['A']}\<close>: an older one without
  materialized ranges and a newer one with the range \<^verbatim>\<open>a..b\<close>.
\<close>

definition olderData :: PartitionHealthQueryQuery where
  "olderData = AssetNode [letters] []"

definition newerData :: PartitionHealthQueryQuery where
  "newerData =
     AssetNode [letters] [MaterializedPartitionRange1D \<lparr>startKey = ''a'', endKey = ''b''\<rparr>]"

definition olderEntry :: CacheEntry where
  "olderEntry =
     \<lparr>assetKey = [''A''], dimensions = [letters], isRangeDataInverted = False,
      rangeDimensions = [letters], ranges = [], fetchedAt = ''h1''\<rparr>"

definition newerEntry :: CacheEntry where
  "newerEntry =
     \<lparr>assetKey = [''A''], dimensions = [letters], isRangeDataInverted = False,
      rangeDimensions = [letters],
      ranges = [Range \<lparr>key = ''a'', idx = 0\<rparr> \<lparr>key = ''b'', idx = 1\<rparr> SUCCESS None],
      fetchedAt = ''h2''\<rparr>"

text \<open>
  The hint changes from \<^verbatim>\<open>h1\<close> to \<^verbatim>\<open>h2\<close> while the first fetch is in flight; the
  second fetch resolves and the hook renders again.
\<close>

definition overlappingFetches :: "event list" where
  "overlappingFetches =
     [Request [[''A'']] ''h1'', Request [[''A'']] ''h2'', Resolved 1 newerData,
      Request [[''A'']] ''h2'']"

text \<open>The key \<^verbatim>\<open>A\<close> is cached at \<^verbatim>\<open>h1\<close> and the hook has rendered with that hint.\<close>

definition cachedAtH1 :: HookState where
  "cachedAtH1 = \<lparr>result = [olderEntry], memoDeps = Some (None, ''h1''), inflight = []\<rparr>"

text \<open>The state after these events: the newer response is stored, the older fetch is in flight.\<close>

definition afterNewer :: HookState where
  "afterNewer =
     \<lparr>result = [newerEntry], memoDeps = Some (None, ''h2''), inflight = [([''A''], ''h1'')]\<rparr>"

text \<open>
  The key \<^verbatim>\<open>A\<close> is cached at \<^verbatim>\<open>h1\<close>, the hint has changed to \<^verbatim>\<open>h2\<close> and the
  query of the refetch has been rejected.
\<close>

definition refetchRejected :: "event list" where
  "refetchRejected =
     [Request [[''A'']] ''h1'', Resolved 0 olderData, Request [[''A'']] ''h1'',
      Request [[''A'']] ''h2'', Rejected 0]"

definition afterRejected :: HookState where
  "afterRejected =
     \<lparr>result = [olderEntry], memoDeps = Some (Some [''A''], ''h2''), inflight = []\<rparr>"

text \<open>
  The key \<^verbatim>\<open>A\<close> is cached at \<^verbatim>\<open>h1\<close> while a fetch issued earlier, under \<^verbatim>\<open>h0\<close>,
  is still in flight; then the hint changes to \<^verbatim>\<open>h2\<close> and the fetch of \<^verbatim>\<open>h0\<close>
  resolves before the refetch does.
\<close>

definition earlierFetchPending :: "event list" where
  "earlierFetchPending =
     [Request [[''A'']] ''h0'', Request [[''A'']] ''h1'', Resolved 1 olderData,
      Request [[''A'']] ''h1'']"

definition withEarlierFetch :: HookState where
  "withEarlierFetch =
     \<lparr>result = [olderEntry], memoDeps = Some (None, ''h1''), inflight = [([''A''], ''h0'')]\<rparr>"

definition earlierEntry :: CacheEntry where
  "earlierEntry =
     \<lparr>assetKey = [''A''], dimensions = [letters], isRangeDataInverted = False,
      rangeDimensions = [letters],
      ranges = [Range \<lparr>key = ''a'', idx = 0\<rparr> \<lparr>key = ''b'', idx = 1\<rparr> SUCCESS None],
      fetchedAt = ''h0''\<rparr>"

definition earlierResolved :: HookState where
  "earlierResolved =
     \<lparr>result = [earlierEntry], memoDeps = Some (Some [''A''], ''h2''),
      inflight = [([''A''], ''h2'')]\<rparr>"

section \<open>Lemmas\<close>

subsection \<open>indexOf\<close>

lemma indexOf_absent: "x \<notin> set xs \<Longrightarrow> indexOf xs x = - 1"
  by (induction xs) (auto simp: Let_def)

lemma indexOf_present: "x \<in> set xs \<Longrightarrow> 0 \<le> indexOf xs x \<and> indexOf xs x < int (length xs)"
  by (induction xs) (auto simp: Let_def)

lemma indexOf_hd: "xs \<noteq> [] \<Longrightarrow> indexOf xs (hd xs) = 0"
  by (cases xs) auto

lemma indexOf_last: "distinct xs \<Longrightarrow> xs \<noteq> [] \<Longrightarrow> indexOf xs (last xs) = int (length xs) - 1"
proof (induction xs)
  case Nil
  then show ?case by simp
next
  case (Cons y ys)
  show ?case
  proof (cases "ys = []")
    case True
    then show ?thesis by simp
  next
    case False
    with Cons.prems have "y \<noteq> last ys" by auto
    moreover from Cons False have "indexOf ys (last ys) = int (length ys) - 1" by simp
    ultimately show ?thesis using False by (simp add: Let_def)
  qed
qed

subsection \<open>Decoding\<close>

lemma dimKeys_0: "0 < length ds \<Longrightarrow> dimKeys ds 0 = Inr (partitionKeys (ds ! 0))"
  by (simp add: dimKeys_def at_def)

lemma dimKeys_1: "Suc 0 < length ds \<Longrightarrow> dimKeys ds (Suc 0) = Inr (partitionKeys (ds ! Suc 0))"
  by (simp add: dimKeys_def at_def)

lemma addIndex_1D:
  "0 < length ds \<Longrightarrow>
   addIndex ds (MaterializedPartitionRange1D rng) =
     Inr (Range (indexed (partitionKeys (ds ! 0)) (startKey rng))
            (indexed (partitionKeys (ds ! 0)) (endKey rng)) SUCCESS None)"
  by (simp add: dimKeys_0)

lemma addIndex_2D:
  assumes "Suc 0 < length ds"
  shows "addIndex ds (MaterializedPartitionRange2D pstart pend secondary) =
     Inr (Range (indexed (partitionKeys (ds ! 0)) pstart) (indexed (partitionKeys (ds ! 0)) pend)
            (if length secondary = 1
                \<and> indexOf (partitionKeys (ds ! 1)) (startKey (hd secondary)) = 0
                \<and> indexOf (partitionKeys (ds ! 1)) (endKey (hd secondary))
                    = int (length (partitionKeys (ds ! 1))) - 1
             then SUCCESS else SUCCESS_MISSING)
            (Some (map (subrangeOf (partitionKeys (ds ! 1))) secondary)))"
proof -
  from assms have "0 < length ds" by arith
  then have 0: "dimKeys ds 0 = Inr (partitionKeys (ds ! 0))" by (rule dimKeys_0)
  from assms have 1: "dimKeys ds (Suc 0) = Inr (partitionKeys (ds ! Suc 0))" by (rule dimKeys_1)
  show ?thesis
  proof (cases secondary)
    case Nil
    then show ?thesis using 0 by simp
  next
    case (Cons sub subs)
    then show ?thesis using 0 1 by (simp add: subrangeOf_def indexed_def)
  qed
qed

lemma addIndex_two: "1 < length ds \<Longrightarrow> \<exists>r. addIndex ds m = Inr r"
  by (cases m) (simp_all only: addIndex_1D addIndex_2D One_nat_def, simp_all)

lemma addIndexes_two: "1 < length ds \<Longrightarrow> \<exists>rs. addIndexes ds ms = Inr rs"
proof (induction ms)
  case Nil
  then show ?case by simp
next
  case (Cons m ms)
  then obtain r rs where "addIndex ds m = Inr r" "addIndexes ds ms = Inr rs"
    using addIndex_two by blast
  then show ?case by simp
qed

lemma build_AssetNode:
  "buildPartitionHealthData isTS (AssetNode dims payload) loadKey =
     (case addIndexes (wireOrder isTS dims) payload of
        Inl e \<Rightarrow> Inl e
      | Inr rs \<Rightarrow>
          Inr \<lparr>assetKey = loadKey, dimensions = dims,
               isRangeDataInverted = (length dims = 2 \<and> isTS (dims ! 1)),
               rangeDimensions = wireOrder isTS dims, ranges = rs\<rparr>)"
  by (auto simp: buildPartitionHealthData_def wireOrder_def Let_def split: sum.splits)

lemma noOverlap_unique:
  "noOverlap rs \<Longrightarrow> find (\<lambda>r. covers r i) rs = Some r \<Longrightarrow> r' \<in> set rs \<Longrightarrow> covers r' i
   \<Longrightarrow> r' = r"
proof (induction rs)
  case Nil
  then show ?case by simp
next
  case (Cons x xs)
  show ?case
  proof (cases "covers x i")
    case True
    with Cons.prems have r: "r = x" by simp
    show ?thesis
    proof (cases "r' = x")
      case True
      with r show ?thesis by simp
    next
      case False
      with Cons.prems have "r' \<in> set xs" by simp
      with Cons.prems(1) have "idx (endR x) < idx (start r') \<or> idx (endR r') < idx (start x)"
        by simp
      with True Cons.prems(4) show ?thesis
        by (auto simp: covers_def split: option.splits)
    qed
  next
    case False
    with Cons.prems have "find (\<lambda>r. covers r i) xs = Some r" "r' \<in> set xs" by auto
    with Cons show ?thesis by simp
  qed
qed

lemma find_Some_set: "find P xs = Some x \<Longrightarrow> x \<in> set xs \<and> P x"
  by (induction xs) (auto split: if_splits)

lemma find_None_set: "find P xs = None \<Longrightarrow> x \<in> set xs \<Longrightarrow> \<not> P x"
  by (induction xs) (auto split: if_splits)

lemma rangeOrdering_two:
  assumes "rangeDimensions h = [p, s]" and "noOverlap (ranges h)"
  shows "stateForKeyRangeOrdering h [a, b] =
           Inr (if \<exists>r \<in> set (ranges h). covers r (Some (indexOf (partitionKeys p) a))
                     \<and> (case subranges r of
                          None \<Rightarrow> True
                        | Some subs \<Rightarrow>
                            \<exists>sr \<in> set subs. covers sr (Some (indexOf (partitionKeys s) b)))
                then SUCCESS else MISSING)"
proof -
  let ?i = "Some (indexOf (partitionKeys p) a)"
  let ?j = "Some (indexOf (partitionKeys s) b)"
  let ?ok = "\<lambda>r. case subranges r of None \<Rightarrow> True | Some subs \<Rightarrow> \<exists>sr \<in> set subs. covers sr ?j"
  have ix: "dIndexesOf (rangeDimensions h) [a, b]
              = Inr [indexOf (partitionKeys p) a, indexOf (partitionKeys s) b]"
    using assms(1) by simp
  show ?thesis
  proof (cases "find (\<lambda>r. covers r ?i) (ranges h)")
    case None
    then have "\<not> (\<exists>r \<in> set (ranges h). covers r ?i \<and> ?ok r)"
      using find_None_set by fastforce
    with None ix show ?thesis
      by (simp add: stateForKeyRangeOrdering_def at_def)
  next
    case (Some r)
    then have r: "r \<in> set (ranges h)" "covers r ?i" using find_Some_set by fastforce+
    have uniq: "\<And>r'. r' \<in> set (ranges h) \<Longrightarrow> covers r' ?i \<Longrightarrow> r' = r"
      using noOverlap_unique [OF assms(2) Some] by blast
    have eq: "(\<exists>r' \<in> set (ranges h). covers r' ?i \<and> ?ok r') \<longleftrightarrow> ?ok r"
      using r uniq by blast
    show ?thesis
    proof (cases "subranges r")
      case None
      with Some ix eq show ?thesis
        by (simp add: stateForKeyRangeOrdering_def at_def)
    next
      case (Some subs)
      show ?thesis
      proof (cases "find (\<lambda>sr. covers sr ?j) subs")
        case None
        then have "\<not> (\<exists>sr \<in> set subs. covers sr ?j)" using find_None_set by fastforce
        with None Some \<open>find (\<lambda>r. covers r ?i) (ranges h) = Some r\<close> ix eq show ?thesis
          by (simp add: stateForKeyRangeOrdering_def at_def)
      next
        case (Some sr)
        then have "\<exists>sr \<in> set subs. covers sr ?j" using find_Some_set by fastforce
        with Some \<open>subranges r = Some subs\<close>
          \<open>find (\<lambda>r. covers r ?i) (ranges h) = Some r\<close> ix eq show ?thesis
          by (simp add: stateForKeyRangeOrdering_def at_def)
      qed
    qed
  qed
qed

lemma build_two:
  "\<exists>rs. buildPartitionHealthData isTS (AssetNode [d0, d1] payload) loadKey =
           Inr \<lparr>assetKey = loadKey, dimensions = [d0, d1], isRangeDataInverted = isTS d1,
                rangeDimensions = (if isTS d1 then [d1, d0] else [d0, d1]), ranges = rs\<rparr>
         \<and> addIndexes (if isTS d1 then [d1, d0] else [d0, d1]) payload = Inr rs"
proof -
  have "1 < length (if isTS d1 then [d1, d0] else [d0, d1])" by simp
  then obtain rs where "addIndexes (if isTS d1 then [d1, d0] else [d0, d1]) payload = Inr rs"
    using addIndexes_two by blast
  then show ?thesis
    by (cases "isTS d1") (simp_all add: build_AssetNode wireOrder_def)
qed

lemma build_invertedIndex:
  "buildPartitionHealthData dateIsTimeseries (AssetNode [letters, dates] invertedPayload) [''asset'']
     = Inr invertedIndex"
  by (simp add: buildPartitionHealthData_def dateIsTimeseries_def letters_def dates_def
      invertedPayload_def invertedIndex_def dimKeys_def at_def subrangeOf_def indexed_def Let_def)

lemma build_diagonalIndex:
  "buildPartitionHealthData noTimeseries (AssetNode [letters, colors] diagonalPayload) [''asset'']
     = Inr diagonalIndex"
  by (simp add: buildPartitionHealthData_def noTimeseries_def letters_def colors_def
      diagonalPayload_def diagonalIndex_def dimKeys_def at_def subrangeOf_def indexed_def Let_def)

lemma build_emptyIndex:
  "buildPartitionHealthData noTimeseries (AssetNode [letters, colors] []) [''asset'']
     = Inr emptyIndex"
  by (simp add: buildPartitionHealthData_def noTimeseries_def letters_def colors_def
      emptyIndex_def Let_def)

section \<open>Point queries\<close>

text \<open>
  Claim C1, as the code has it. For every 2-dimensional index whose primary ranges do
  not overlap (the invariant of the data model) and every pair of keys \<open>k0\<close>, \<open>k1\<close>
  given in declared order, \<^verbatim>\<open>stateForKey([k0, k1])\<close> returns \<open>SUCCESS\<close> if and only if
  some primary range covers the index of the key of the wire's primary dimension and
  either has no subranges field or has a secondary range that covers the index of the
  key of the wire's secondary dimension; otherwise it returns \<open>MISSING\<close>. The primary
  key is \<open>k0\<close> and the secondary key \<open>k1\<close>, except on an index whose range data is
  inverted (the second declared dimension is the time dimension), where the primary
  key is \<open>k1\<close> and the secondary key \<open>k0\<close>.
\<close>

theorem stateForKey_2D:
  "\<exists>h. buildPartitionHealthData isTS (AssetNode [d0, d1] payload) loadKey = Inr h
      \<and> (noOverlap (ranges h) \<longrightarrow>
          (let (pk, pd, sk, sd) = (if isTS d1 then (k1, d1, k0, d0) else (k0, d0, k1, d1))
           in stateForKey h [k0, k1] =
                Inr (if \<exists>r \<in> set (ranges h).
                          covers r (Some (indexOf (partitionKeys pd) pk))
                          \<and> (case subranges r of
                               None \<Rightarrow> True
                             | Some subs \<Rightarrow>
                                 \<exists>sr \<in> set subs.
                                   covers sr (Some (indexOf (partitionKeys sd) sk)))
                     then SUCCESS else MISSING)))"
proof -
  from build_two [of isTS d0 d1 payload loadKey] obtain rs h where
    h: "buildPartitionHealthData isTS (AssetNode [d0, d1] payload) loadKey = Inr h"
    and hdef: "h = \<lparr>assetKey = loadKey, dimensions = [d0, d1], isRangeDataInverted = isTS d1,
                rangeDimensions = (if isTS d1 then [d1, d0] else [d0, d1]), ranges = rs\<rparr>"
    by blast
  show ?thesis
  proof (cases "isTS d1")
    case True
    with hdef have rd: "rangeDimensions h = [d1, d0]" and inv: "isRangeDataInverted h"
      by simp_all
    have "noOverlap (ranges h) \<Longrightarrow> stateForKey h [k0, k1] =
            Inr (if \<exists>r \<in> set (ranges h).
                      covers r (Some (indexOf (partitionKeys d1) k1))
                      \<and> (case subranges r of
                           None \<Rightarrow> True
                         | Some subs \<Rightarrow>
                             \<exists>sr \<in> set subs. covers sr (Some (indexOf (partitionKeys d0) k0)))
                 then SUCCESS else MISSING)"
      using rangeOrdering_two [OF rd, of k1 k0] inv by (simp add: stateForKey_def)
    with h True show ?thesis by simp
  next
    case False
    with hdef have rd: "rangeDimensions h = [d0, d1]" and inv: "\<not> isRangeDataInverted h"
      by simp_all
    have "noOverlap (ranges h) \<Longrightarrow> stateForKey h [k0, k1] =
            Inr (if \<exists>r \<in> set (ranges h).
                      covers r (Some (indexOf (partitionKeys d0) k0))
                      \<and> (case subranges r of
                           None \<Rightarrow> True
                         | Some subs \<Rightarrow>
                             \<exists>sr \<in> set subs. covers sr (Some (indexOf (partitionKeys d1) k1)))
                 then SUCCESS else MISSING)"
      using rangeOrdering_two [OF rd, of k0 k1] inv by (simp add: stateForKey_def)
    with h False show ?thesis by simp
  qed
qed

text \<open>
  The theorem at the inverted example index: \<^verbatim>\<open>b\<close> is a letter and \<^verbatim>\<open>x\<close> a date.
\<close>

theorem stateForKey_2D_witness:
  "buildPartitionHealthData dateIsTimeseries (AssetNode [letters, dates] invertedPayload)
        [''asset''] = Inr invertedIndex
   \<and> noOverlap (ranges invertedIndex)
   \<and> stateForKey invertedIndex [''b'', ''x''] = Inr SUCCESS
   \<and> stateForKey invertedIndex [''x'', ''b''] = Inr MISSING"
  using stateForKey_2D [of dateIsTimeseries letters dates invertedPayload "[''asset'']"
      "''b''" "''x''"]
    stateForKey_2D [of dateIsTimeseries letters dates invertedPayload "[''asset'']"
      "''x''" "''b''"]
  by (simp add: build_invertedIndex)
     (simp add: invertedIndex_def dateIsTimeseries_def letters_def dates_def covers_def)

text \<open>
  Claim C1 as stated fails on an inverted index. The only primary range of the example
  is \<open>[0, 0]\<close> over the dates; \<open>k0 = b\<close> has index 1 among the letters, so no primary
  range contains the index of \<open>k0\<close>, and yet \<^verbatim>\<open>stateForKey(['b', 'x'])\<close> is \<open>SUCCESS\<close>.
  It also fails where primary ranges overlap, since \<^verbatim>\<open>find\<close> takes the first range
  that contains the index: the second primary range of the overlapping index contains
  the index 0 of \<^verbatim>\<open>a\<close> and has a secondary range that contains the index 1 of \<^verbatim>\<open>y\<close>,
  and \<^verbatim>\<open>stateForKey(['a', 'y'])\<close> is \<open>MISSING\<close>.
\<close>

theorem stateForKey_declared_order_counterexample:
  "buildPartitionHealthData dateIsTimeseries (AssetNode [letters, dates] invertedPayload)
        [''asset''] = Inr invertedIndex
   \<and> stateForKey invertedIndex [''b'', ''x''] = Inr SUCCESS
   \<and> length (ranges invertedIndex) = 1
   \<and> indexOf (partitionKeys letters) ''b'' = 1
   \<and> \<not> covers (hd (ranges invertedIndex)) (Some 1)
   \<and> buildPartitionHealthData noTimeseries (AssetNode [letters, colors] overlappingPayload)
        [''asset''] = Inr overlappingIndex
   \<and> stateForKey overlappingIndex [''a'', ''y''] = Inr MISSING
   \<and> indexOf (partitionKeys letters) ''a'' = 0
   \<and> indexOf (partitionKeys colors) ''y'' = 1
   \<and> covers (ranges overlappingIndex ! 1) (Some 0)
   \<and> matches 1 (ranges overlappingIndex ! 1)"
proof -
  have "buildPartitionHealthData noTimeseries (AssetNode [letters, colors] overlappingPayload)
        [''asset''] = Inr overlappingIndex"
    by (simp add: buildPartitionHealthData_def noTimeseries_def letters_def colors_def
        overlappingPayload_def overlappingIndex_def dimKeys_def at_def subrangeOf_def
        indexed_def Let_def)
  moreover have "stateForKey invertedIndex [''b'', ''x''] = Inr SUCCESS
   \<and> length (ranges invertedIndex) = 1
   \<and> indexOf (partitionKeys letters) ''b'' = 1
   \<and> \<not> covers (hd (ranges invertedIndex)) (Some 1)"
    by (simp add: invertedIndex_def stateForKey_def stateForKeyRangeOrdering_def letters_def
        dates_def covers_def at_def)
  moreover have "stateForKey overlappingIndex [''a'', ''y''] = Inr MISSING
   \<and> indexOf (partitionKeys letters) ''a'' = 0
   \<and> indexOf (partitionKeys colors) ''y'' = 1
   \<and> covers (ranges overlappingIndex ! 1) (Some 0)
   \<and> matches 1 (ranges overlappingIndex ! 1)"
    by (simp add: overlappingIndex_def stateForKey_def stateForKeyRangeOrdering_def
        letters_def colors_def covers_def at_def matches_def)
  ultimately show ?thesis using build_invertedIndex by simp
qed

section \<open>Unsupported dimensions\<close>

text \<open>
  Claim C8. For every index and every key, with or without selected keys of the other
  dimension, \<^verbatim>\<open>stateForSingleDimension\<close> called with a dimension index of 2 or more
  throws the unsupported-dimension error: on an inverted index the index becomes
  \<open>1 - dimensionIdx < 0\<close>, which no branch accepts either. The index is a value that
  no query modifies, so it remains usable after the error.
\<close>

theorem unsupported_dimension:
  assumes "2 \<le> dimensionIdx"
  shows "stateForSingleDimension merged h dimensionIdx dimensionKey others
           = Inl UnsupportedDimension"
proof -
  let ?translated = "if isRangeDataInverted h then 1 - dimensionIdx else dimensionIdx"
  from assms have "?translated \<noteq> 0" and "?translated \<noteq> 1" by auto
  then show ?thesis
    by (simp add: stateForSingleDimension_def Let_def)
qed

theorem unsupported_dimension_witness:
  "(2::int) \<le> 2
   \<and> stateForSingleDimension mergedStates invertedIndex 2 ''x'' None = Inl UnsupportedDimension
   \<and> stateForKey invertedIndex [''b'', ''x''] = Inr SUCCESS"
  using unsupported_dimension [of 2 mergedStates invertedIndex "''x''" None]
  by (simp add: invertedIndex_def stateForKey_def stateForKeyRangeOrdering_def letters_def
      dates_def covers_def at_def)

section \<open>Coverage of a decoded primary range\<close>

lemma addIndexes_nth:
  "addIndexes ds ms = Inr rs \<Longrightarrow>
   length rs = length ms \<and> (\<forall>i < length ms. addIndex ds (ms ! i) = Inr (rs ! i))"
proof (induction ms arbitrary: rs)
  case Nil
  then show ?case by simp
next
  case (Cons m ms)
  from Cons.prems obtain r rs' where r: "addIndex ds m = Inr r"
    and rs': "addIndexes ds ms = Inr rs'" and rs: "rs = r # rs'"
    by (auto split: sum.splits)
  from Cons.IH [OF rs'] have len: "length rs' = length ms"
    and nth: "\<And>i. i < length ms \<Longrightarrow> addIndex ds (ms ! i) = Inr (rs' ! i)" by simp_all
  show ?case
  proof (intro conjI allI impI)
    show "length rs = length (m # ms)" using rs len by simp
  next
    fix i assume "i < length (m # ms)"
    then show "addIndex ds ((m # ms) ! i) = Inr (rs ! i)"
      using r rs nth by (cases i) simp_all
  qed
qed

text \<open>
  Claim C3, as the code has it. For every payload decoded against two dimensions,
  every 2D range is decoded (no error), its subranges are its secondary ranges with
  their indices in dimension 1, and its value is \<open>SUCCESS\<close> (FULL) if and only if it
  has exactly one secondary range and that one range starts at index 0 and ends at the
  last index of dimension 1; in every other case the value is \<open>SUCCESS_MISSING\<close>
  (PARTIAL). Secondary ranges are never merged.
\<close>

theorem full_iff_single_spanning_subrange:
  "\<exists>rs. addIndexes [d0, d1] payload = Inr rs \<and> length rs = length payload
      \<and> (\<forall>i < length payload. is2D (payload ! i) \<longrightarrow>
           (let subs = map (subrangeOf (partitionKeys d1)) (secondaryDimRanges (payload ! i))
            in subranges (rs ! i) = Some subs
               \<and> valueR (rs ! i) =
                   (if \<exists>sr. subs = [sr] \<and> idx (start sr) = 0
                            \<and> idx (endR sr) = int (length (partitionKeys d1)) - 1
                    then SUCCESS else SUCCESS_MISSING)))"
proof -
  have "1 < length [d0, d1]" by simp
  then obtain rs where rs: "addIndexes [d0, d1] payload = Inr rs"
    using addIndexes_two by blast
  from addIndexes_nth [OF rs] have len: "length rs = length payload"
    and nth: "\<And>i. i < length payload \<Longrightarrow> addIndex [d0, d1] (payload ! i) = Inr (rs ! i)"
    by simp_all
  have "let subs = map (subrangeOf (partitionKeys d1)) (secondaryDimRanges (payload ! i))
            in subranges (rs ! i) = Some subs
               \<and> valueR (rs ! i) =
                   (if \<exists>sr. subs = [sr] \<and> idx (start sr) = 0
                            \<and> idx (endR sr) = int (length (partitionKeys d1)) - 1
                    then SUCCESS else SUCCESS_MISSING)"
    if i: "i < length payload" and two: "is2D (payload ! i)" for i
  proof -
    from two obtain ps pe sec where p: "payload ! i = MaterializedPartitionRange2D ps pe sec"
      by (cases "payload ! i") simp_all
    have "addIndex [d0, d1] (MaterializedPartitionRange2D ps pe sec) = Inr (rs ! i)"
      using nth [OF i] p by simp
    then have r: "rs ! i = Range (indexed (partitionKeys d0) ps) (indexed (partitionKeys d0) pe)
            (if length sec = 1
                \<and> indexOf (partitionKeys d1) (startKey (hd sec)) = 0
                \<and> indexOf (partitionKeys d1) (endKey (hd sec))
                    = int (length (partitionKeys d1)) - 1
             then SUCCESS else SUCCESS_MISSING)
            (Some (map (subrangeOf (partitionKeys d1)) sec))"
      using addIndex_2D [of "[d0, d1]" ps pe sec] by simp
    show ?thesis
    proof (cases sec)
      case Nil
      with r p show ?thesis by simp
    next
      case (Cons s ss)
      with r p show ?thesis by (simp add: subrangeOf_def indexed_def)
    qed
  qed
  with rs len show ?thesis by blast
qed

text \<open>The theorem at a partial and at a full primary range.\<close>

theorem full_iff_single_spanning_subrange_witness:
  "addIndexes [letters, colors] diagonalPayload = Inr (ranges diagonalIndex)
   \<and> is2D (diagonalPayload ! 0)
   \<and> valueR (ranges diagonalIndex ! 0) = SUCCESS_MISSING
   \<and> addIndexes [dates, letters] invertedPayload = Inr (ranges invertedIndex)
   \<and> is2D (invertedPayload ! 0)
   \<and> valueR (ranges invertedIndex ! 0) = SUCCESS"
  using full_iff_single_spanning_subrange [of letters colors diagonalPayload]
    full_iff_single_spanning_subrange [of dates letters invertedPayload]
  by (simp add: diagonalPayload_def diagonalIndex_def invertedPayload_def invertedIndex_def
      letters_def colors_def dates_def subrangeOf_def indexed_def dimKeys_def at_def)

text \<open>
  Claim C3 as stated fails: the two contiguous secondary ranges \<open>[0, 0]\<close> and \<open>[1, 1]\<close>
  together span both indices of the second dimension, and the primary range is
  classified \<open>SUCCESS_MISSING\<close>.
\<close>

theorem contiguous_subranges_counterexample:
  "addIndexes [letters, colors] splitPayload =
     Inr [Range \<lparr>key = ''a'', idx = 0\<rparr> \<lparr>key = ''b'', idx = 1\<rparr> SUCCESS_MISSING
            (Some [Range \<lparr>key = ''x'', idx = 0\<rparr> \<lparr>key = ''x'', idx = 0\<rparr> SUCCESS None,
                   Range \<lparr>key = ''y'', idx = 1\<rparr> \<lparr>key = ''y'', idx = 1\<rparr> SUCCESS None])]
   \<and> length (partitionKeys colors) = 2"
  by (simp add: splitPayload_def letters_def colors_def subrangeOf_def indexed_def dimKeys_def
      at_def)

section \<open>Round trip of the full payload\<close>

lemma whole_covers:
  assumes "distinct ks" and "k \<in> set ks"
  shows "covers (Range (indexed ks (hd ks)) (indexed ks (last ks)) v subs) (Some (indexOf ks k))"
proof -
  from assms(2) have ne: "ks \<noteq> []" by auto
  from indexOf_present [OF assms(2)] indexOf_hd [OF ne] indexOf_last [OF assms(1) ne]
  show ?thesis by (simp add: covers_def indexed_def)
qed

lemma round_trip_1D:
  assumes "distinct (partitionKeys d)" and "k \<in> set (partitionKeys d)"
  shows "\<exists>h. buildPartitionHealthData isTS (AssetNode [d] (fullPayload (wireOrder isTS [d]))) loadKey
               = Inr h
           \<and> stateForKey h [k] = Inr SUCCESS
           \<and> stateForSingleDimension merged h 0 k None = Inr SUCCESS"
  using whole_covers [OF assms, of SUCCESS None]
  by (simp add: build_AssetNode wireOrder_def dimKeys_def at_def wholeRange_def
      stateForKey_def stateForKeyRangeOrdering_def stateForSingleDimension_def)

lemma round_trip_2D:
  assumes "distinct (partitionKeys d0)" and "k0 \<in> set (partitionKeys d0)"
    and "distinct (partitionKeys d1)" and "k1 \<in> set (partitionKeys d1)"
    and "k \<in> set (partitionKeys d0)"
    and "\<not> isTS d1"
  shows "\<exists>h. buildPartitionHealthData isTS (AssetNode [d0, d1] (fullPayload (wireOrder isTS [d0, d1])))
                 loadKey = Inr h
           \<and> stateForKey h [k0, k1] = Inr SUCCESS
           \<and> stateForSingleDimension merged h 0 k None = Inr SUCCESS"
proof -
  from assms(4) have ne1: "partitionKeys d1 \<noteq> []" by auto
  have v: "indexOf (partitionKeys d1) (hd (partitionKeys d1)) = 0"
    "indexOf (partitionKeys d1) (last (partitionKeys d1)) = int (length (partitionKeys d1)) - 1"
    using indexOf_hd [OF ne1] indexOf_last [OF assms(3) ne1] by simp_all
  have c1: "covers (subrangeOf (partitionKeys d1) (wholeRange d1)) (Some (indexOf (partitionKeys d1) k1))"
    using whole_covers [OF assms(3,4), of SUCCESS None] by (simp add: subrangeOf_def wholeRange_def)
  show ?thesis
  using whole_covers [OF assms(1,2)] whole_covers [OF assms(1) assms(5)] c1 v assms(6)
  by (simp add: build_AssetNode wireOrder_def dimKeys_def at_def wholeRange_def
      stateForKey_def stateForKeyRangeOrdering_def stateForSingleDimension_def subrangeOf_def indexed_def)
qed

lemma round_trip_2D_inverted:
  assumes "distinct (partitionKeys d0)" and "k0 \<in> set (partitionKeys d0)"
    and "distinct (partitionKeys d1)" and "k1 \<in> set (partitionKeys d1)"
    and "k \<in> set (partitionKeys d0)"
    and "isTS d1"
  shows "\<exists>h. buildPartitionHealthData isTS (AssetNode [d0, d1] (fullPayload (wireOrder isTS [d0, d1])))
                 loadKey = Inr h
           \<and> stateForKey h [k0, k1] = Inr SUCCESS
           \<and> stateForSingleDimension merged h 0 k None = Inr SUCCESS"
proof -
  from assms(2) have ne0: "partitionKeys d0 \<noteq> []" by auto
  have v: "indexOf (partitionKeys d0) (hd (partitionKeys d0)) = 0"
    "indexOf (partitionKeys d0) (last (partitionKeys d0)) = int (length (partitionKeys d0)) - 1"
    using indexOf_hd [OF ne0] indexOf_last [OF assms(1) ne0] by simp_all
  have c0: "covers (subrangeOf (partitionKeys d0) (wholeRange d0)) (Some (indexOf (partitionKeys d0) k0))"
    using whole_covers [OF assms(1,2), of SUCCESS None] by (simp add: subrangeOf_def wholeRange_def)
  have c: "covers (subrangeOf (partitionKeys d0) (wholeRange d0)) (Some (indexOf (partitionKeys d0) k))"
    using whole_covers [OF assms(1) assms(5), of SUCCESS None] by (simp add: subrangeOf_def wholeRange_def)
  show ?thesis
  using whole_covers [OF assms(3,4)] c0 c v assms(6)
  by (simp add: build_AssetNode wireOrder_def dimKeys_def at_def wholeRange_def
      stateForKey_def stateForKeyRangeOrdering_def stateForSingleDimension_def)
qed

text \<open>
  Claim C9. For every list of one or two dimensions with duplicate-free keys, the index
  built from the payload that declares the whole key space as one full range (in the
  order of the wire: one range from the first to the last key for one dimension; one
  primary range over the primary dimension with one secondary range over the secondary
  dimension for two) answers \<open>SUCCESS\<close> to \<^verbatim>\<open>stateForKey\<close> for every valid key
  combination \<open>ks\<close> in declared order and to \<^verbatim>\<open>stateForSingleDimension(0, k)\<close> for
  every key \<open>k\<close> of the first declared dimension.
\<close>

theorem full_range_round_trip:
  assumes "length dims = 1 \<or> length dims = 2"
    and "\<forall>d \<in> set dims. distinct (partitionKeys d)"
    and "length ks = length dims"
    and "\<forall>i < length dims. ks ! i \<in> set (partitionKeys (dims ! i))"
    and "k \<in> set (partitionKeys (dims ! 0))"
  shows "\<exists>h. buildPartitionHealthData isTS (AssetNode dims (fullPayload (wireOrder isTS dims)))
                 loadKey = Inr h
           \<and> stateForKey h ks = Inr SUCCESS
           \<and> stateForSingleDimension merged h 0 k None = Inr SUCCESS"
  using assms(1)
proof
  assume "length dims = 1"
  with assms(3) obtain d k0 where d: "dims = [d]" and ks: "ks = [k0]"
    by (cases dims; cases ks) auto
  with assms(2,4,5) have "distinct (partitionKeys d)" "k0 \<in> set (partitionKeys d)"
    "k \<in> set (partitionKeys d)" by auto
  with round_trip_1D [of d k0 isTS loadKey merged] round_trip_1D [of d k isTS loadKey merged]
    d ks show ?thesis by auto
next
  assume "length dims = 2"
  with assms(3) obtain d0 d1 k0 k1 where d: "dims = [d0, d1]" and ks: "ks = [k0, k1]"
    by (cases dims; cases "tl dims"; cases ks; cases "tl ks") auto
  from assms(4) \<open>length dims = 2\<close> have "ks ! 0 \<in> set (partitionKeys (dims ! 0))"
    "ks ! 1 \<in> set (partitionKeys (dims ! 1))" by simp_all
  with assms(2,5) d ks have f: "distinct (partitionKeys d0)" "k0 \<in> set (partitionKeys d0)"
    "distinct (partitionKeys d1)" "k1 \<in> set (partitionKeys d1)" "k \<in> set (partitionKeys d0)"
    by simp_all
  show ?thesis
  proof (cases "isTS d1")
    case True
    from round_trip_2D_inverted [of d0 k0 d1 k1 k isTS loadKey merged] f True d ks
    show ?thesis by simp
  next
    case False
    from round_trip_2D [of d0 k0 d1 k1 k isTS loadKey merged] f False d ks
    show ?thesis by simp
  qed
qed

text \<open>The theorem at an inverted index over the letters and the dates.\<close>

theorem full_range_round_trip_witness:
  "distinct (partitionKeys letters) \<and> distinct (partitionKeys dates)
   \<and> ''b'' \<in> set (partitionKeys letters) \<and> ''x'' \<in> set (partitionKeys dates)
   \<and> ''a'' \<in> set (partitionKeys letters)
   \<and> (\<exists>h. buildPartitionHealthData dateIsTimeseries
              (AssetNode [letters, dates] (fullPayload (wireOrder dateIsTimeseries [letters, dates])))
              [''asset''] = Inr h
          \<and> stateForKey h [''b'', ''x''] = Inr SUCCESS
          \<and> stateForSingleDimension mergedStates h 0 ''a'' None = Inr SUCCESS)"
proof -
  have 1: "length [letters, dates] = 1 \<or> length [letters, dates] = 2" by simp
  have 2: "\<forall>d \<in> set [letters, dates]. distinct (partitionKeys d)"
    by (simp add: letters_def dates_def)
  have 3: "length [''b'', ''x''] = length [letters, dates]" by simp
  have 4: "\<forall>i < length [letters, dates].
         [''b'', ''x''] ! i \<in> set (partitionKeys ([letters, dates] ! i))"
    by (simp add: letters_def dates_def less_Suc_eq)
  have 5: "''a'' \<in> set (partitionKeys ([letters, dates] ! 0))" by (simp add: letters_def)
  have 6: "distinct (partitionKeys letters) \<and> distinct (partitionKeys dates)
   \<and> ''b'' \<in> set (partitionKeys letters) \<and> ''x'' \<in> set (partitionKeys dates)
   \<and> ''a'' \<in> set (partitionKeys letters)"
    by (simp add: letters_def dates_def)
  from full_range_round_trip [OF 1 2 3 4 5, of dateIsTimeseries "[''asset'']" mergedStates] 6
  show ?thesis by blast
qed

section \<open>Queries on the secondary dimension\<close>

text \<open>
  Claim C4 at an input where the code departs from it. On the diagonal index the
  selected key \<^verbatim>\<open>b\<close> has index 1 and lies in the second primary range only, which
  has no secondary range covering the index 0 of \<^verbatim>\<open>x\<close>: none of the supplied keys'
  containing ranges is among the matches. The query
  \<^verbatim>\<open>stateForSingleDimension(1, 'x', ['b'])\<close> returns \<open>SUCCESS_MISSING\<close>, because
  line 130 tests the length of all matching primary ranges, while \<^verbatim>\<open>all\<close> in line
  124 is computed over the selected keys. The point query for the only selected
  combination and the query on dimension 0 with the selection \<^verbatim>\<open>['x']\<close> return
  \<open>MISSING\<close> on the same index.
\<close>

theorem selected_keys_outside_matching_ranges:
  "buildPartitionHealthData noTimeseries (AssetNode [letters, colors] diagonalPayload) [''asset'']
       = Inr diagonalIndex
   \<and> indexOf (partitionKeys letters) ''b'' = 1
   \<and> indexOf (partitionKeys colors) ''x'' = 0
   \<and> \<not> covers (ranges diagonalIndex ! 0) (Some 1)
   \<and> covers (ranges diagonalIndex ! 1) (Some 1)
   \<and> \<not> matches 0 (ranges diagonalIndex ! 1)
   \<and> stateForSingleDimension mergedStates diagonalIndex 1 ''x'' (Some [''b'']) = Inr SUCCESS_MISSING
   \<and> stateForKey diagonalIndex [''b'', ''x''] = Inr MISSING
   \<and> stateForSingleDimension mergedStates diagonalIndex 0 ''b'' (Some [''x'']) = Inr MISSING"
  by (simp add: build_diagonalIndex)
     (simp add: diagonalIndex_def stateForSingleDimension_def stateForKey_def
        stateForKeyRangeOrdering_def dimKeys_def at_def covers_def matches_def
        mergedStates_def letters_def colors_def)

section \<open>Keys that are not partition keys\<close>

text \<open>
  Claim C7 at an input where the code departs from it. The index of a two-dimensional
  asset without materialized ranges has no range boundary at all; the key \<^verbatim>\<open>zzz\<close> is
  no key of the second dimension and resolves to \<open>-1\<close>; the query on dimension 1
  returns \<open>SUCCESS\<close>, because \<^verbatim>\<open>all\<close> compares the lengths \<open>0\<close> and \<open>0\<close> of the
  matching and of all primary ranges (line 123) before line 130 looks for a match. The
  query on dimension 0 and the point query return \<open>MISSING\<close> on the same index.
\<close>

theorem missing_key_on_empty_index:
  "buildPartitionHealthData noTimeseries (AssetNode [letters, colors] []) [''asset'']
       = Inr emptyIndex
   \<and> indexOf (partitionKeys colors) ''zzz'' = - 1
   \<and> stateForSingleDimension mergedStates emptyIndex 1 ''zzz'' None = Inr SUCCESS
   \<and> stateForSingleDimension mergedStates emptyIndex 0 ''zzz'' None = Inr MISSING
   \<and> stateForKey emptyIndex [''a'', ''zzz''] = Inr MISSING"
  by (simp add: build_emptyIndex)
     (simp add: emptyIndex_def stateForSingleDimension_def
        stateForKey_def stateForKeyRangeOrdering_def dimKeys_def at_def covers_def
        letters_def colors_def)

section \<open>The cache of the hook\<close>

lemma build_assetKey:
  "buildPartitionHealthData isTS data loadKey = Inr loaded \<Longrightarrow> assetKey loaded = loadKey"
  by (auto simp: buildPartitionHealthData_def Let_def split: sum.splits)

lemma assetKey_extend [simp]:
  "assetKey (PartitionHealthData.extend loaded \<lparr>fetchedAt = h\<rparr>) = assetKey loaded"
  by (simp add: PartitionHealthData.defs)

lemma fetchedAt_extend [simp]:
  "fetchedAt (PartitionHealthData.extend loaded \<lparr>fetchedAt = h\<rparr>) = h"
  by (simp add: PartitionHealthData.defs)

lemma result_request [simp]:
  "result (snd (usePartitionHealthData s assetKeys hint)) = result s"
  by (simp add: usePartitionHealthData_def Let_def)

lemma returned_request:
  "fst (usePartitionHealthData s assetKeys hint)
     = filter (\<lambda>r. assetKey r \<in> set assetKeys) (result s)"
  by (simp add: usePartitionHealthData_def Let_def)

lemma result_rejected [simp]: "result (queryRejected s i) = result s"
  by (simp add: queryRejected_def)

lemma distinct_resolved:
  "distinct (map assetKey (result s)) \<Longrightarrow>
   distinct (map assetKey (result (queryResolved isTS s i data)))"
  by (auto simp: queryResolved_def distinct_map_filter build_assetKey
      split: option.splits sum.splits)

lemma distinct_step:
  "distinct (map assetKey (result s)) \<Longrightarrow> distinct (map assetKey (result (step isTS s ev)))"
  by (cases ev) (simp_all add: distinct_resolved)

lemma distinct_run:
  "distinct (map assetKey (result s)) \<Longrightarrow> distinct (map assetKey (result (run isTS s evs)))"
  by (induction evs arbitrary: s) (simp_all add: distinct_step)

lemma build_olderData:
  "buildPartitionHealthData noTimeseries olderData [''A'']
     = Inr \<lparr>assetKey = [''A''], dimensions = [letters], isRangeDataInverted = False,
            rangeDimensions = [letters], ranges = []\<rparr>"
  by (simp add: buildPartitionHealthData_def olderData_def Let_def)

lemma build_newerData:
  "buildPartitionHealthData noTimeseries newerData [''A'']
     = Inr \<lparr>assetKey = [''A''], dimensions = [letters], isRangeDataInverted = False,
            rangeDimensions = [letters],
            ranges = [Range \<lparr>key = ''a'', idx = 0\<rparr> \<lparr>key = ''b'', idx = 1\<rparr> SUCCESS None]\<rparr>"
  by (simp add: buildPartitionHealthData_def newerData_def Let_def dimKeys_def at_def
      indexed_def letters_def)

lemma run_overlappingFetches:
  "run noTimeseries initialState overlappingFetches
     = \<lparr>result = [newerEntry], memoDeps = Some (None, ''h2''), inflight = [([''A''], ''h1'')]\<rparr>"
  by (simp add: overlappingFetches_def initialState_def usePartitionHealthData_def
      missingKeyJSON_def queryResolved_def at_def removeAt_def Let_def build_newerData
      newerEntry_def PartitionHealthData.defs)

text \<open>
  Claim C10. In every state the hook reaches from its initial state, by renders and by
  completions of its queries in any order, the stored list holds at most one entry per
  asset key; and every step preserves this, since a completed fetch removes the
  entries of its key before it appends the new one.
\<close>

theorem one_entry_per_key:
  "distinct (map assetKey (result (run isTS initialState evs)))
   \<and> (distinct (map assetKey (result s))
        \<longrightarrow> distinct (map assetKey (result (step isTS s ev))))"
  using distinct_run [of initialState isTS evs] distinct_step [of s isTS ev]
  by (simp add: initialState_def)

text \<open>The theorem at the example execution and at the completion of its older fetch.\<close>

theorem one_entry_per_key_witness:
  "distinct (map assetKey (result cachedAtH1))
   \<and> distinct (map assetKey
         (result (step noTimeseries (run noTimeseries initialState overlappingFetches)
            (Resolved 0 olderData))))"
  using one_entry_per_key [of noTimeseries overlappingFetches
      "run noTimeseries initialState overlappingFetches" "Resolved 0 olderData"]
  by (simp add: cachedAtH1_def)

text \<open>
  Claim C5. From the empty cache, the first request for the distinct keys \<open>A\<close> and
  \<open>B\<close> with hint \<open>h\<close> returns no entry and starts one fetch, for \<open>A\<close>. When that
  fetch has stored the entry of \<open>A\<close>, the second request returns it and starts one
  fetch, for \<open>B\<close>. When that fetch has stored the entry of \<open>B\<close>, the third request
  starts no fetch and returns both entries, and the stored list is unchanged.
\<close>

theorem cache_scenario:
  assumes "A \<noteq> B"
    and "buildPartitionHealthData isTS dataA A = Inr loadedA"
    and "buildPartitionHealthData isTS dataB B = Inr loadedB"
  shows "(let (r1, s1) = usePartitionHealthData initialState [A, B] h;
              s2 = queryResolved isTS s1 0 dataA;
              (r2, s3) = usePartitionHealthData s2 [A, B] h;
              s4 = queryResolved isTS s3 0 dataB;
              (r3, s5) = usePartitionHealthData s4 [A, B] h;
              entryA = PartitionHealthData.extend loadedA \<lparr>fetchedAt = h\<rparr>;
              entryB = PartitionHealthData.extend loadedB \<lparr>fetchedAt = h\<rparr>
          in r1 = [] \<and> inflight s1 = [(A, h)]
             \<and> result s2 = [entryA] \<and> inflight s2 = []
             \<and> r2 = [entryA] \<and> inflight s3 = [(B, h)]
             \<and> result s4 = [entryA, entryB] \<and> inflight s4 = []
             \<and> r3 = [entryA, entryB] \<and> inflight s5 = [] \<and> result s5 = [entryA, entryB])"
proof -
  from assms(2,3) have k: "assetKey loadedA = A" "assetKey loadedB = B"
    by (simp_all add: build_assetKey)
  with assms show ?thesis
    by (simp add: usePartitionHealthData_def missingKeyJSON_def initialState_def
        queryResolved_def at_def removeAt_def Let_def)
qed

text \<open>The theorem for the keys \<^verbatim>\<open>A\<close> and \<^verbatim>\<open>B\<close> and the hint \<^verbatim>\<open>h1\<close>.\<close>

theorem cache_scenario_witness:
  "[''A''] \<noteq> [''B'']
   \<and> (let (r1, s1) = usePartitionHealthData initialState [[''A''], [''B'']] ''h1'';
              s2 = queryResolved noTimeseries s1 0 olderData;
              (r2, s3) = usePartitionHealthData s2 [[''A''], [''B'']] ''h1'';
              s4 = queryResolved noTimeseries s3 0 NotAssetNode;
              (r3, s5) = usePartitionHealthData s4 [[''A''], [''B'']] ''h1''
          in r1 = [] \<and> inflight s1 = [([''A''], ''h1'')]
             \<and> r2 = [olderEntry] \<and> inflight s3 = [([''B''], ''h1'')]
             \<and> map assetKey r3 = [[''A''], [''B'']] \<and> inflight s5 = [] \<and> result s5 = r3)"
proof -
  have ne: "[''A''] \<noteq> [''B'']" by simp
  have b: "buildPartitionHealthData noTimeseries NotAssetNode [''B'']
     = Inr \<lparr>assetKey = [''B''], dimensions = [], isRangeDataInverted = False,
            rangeDimensions = [], ranges = []\<rparr>"
    by (simp add: buildPartitionHealthData_def Let_def)
  from cache_scenario [OF ne build_olderData b, of "''h1''"] ne show ?thesis
    by (simp add: Let_def split_def olderEntry_def PartitionHealthData.defs)
qed

section \<open>Refreshing an entry\<close>

lemma kept_resolved:
  assumes "filter (\<lambda>r. assetKey r = A) (result s) = [e]"
    and "case at (inflight s) i of None \<Rightarrow> True | Some (k, h) \<Rightarrow> k \<noteq> A"
  shows "filter (\<lambda>r. assetKey r = A) (result (queryResolved isTS s i data)) = [e]"
proof (cases "at (inflight s) i")
  case None
  with assms(1) show ?thesis by (simp add: queryResolved_def)
next
  case (Some kh)
  obtain k h where kh: "kh = (k, h)" by (cases kh)
  with Some assms(2) have ne: "k \<noteq> A" by simp
  have f: "filter (\<lambda>r. assetKey r = A) (filter (\<lambda>r. assetKey r \<noteq> k) (result s))
             = filter (\<lambda>r. assetKey r = A) (result s)"
    using ne by (auto intro: filter_cong)
  show ?thesis
  proof (cases "buildPartitionHealthData isTS data k")
    case (Inl err)
    with Some kh assms(1) show ?thesis by (simp add: queryResolved_def)
  next
    case (Inr loaded)
    then have "assetKey loaded = k" by (rule build_assetKey)
    with Inr Some kh assms(1) f ne show ?thesis by (simp add: queryResolved_def)
  qed
qed

lemma kept_run:
  "noneResolvedFor isTS A s evs \<Longrightarrow> filter (\<lambda>r. assetKey r = A) (result s) = [e] \<Longrightarrow>
   filter (\<lambda>r. assetKey r = A) (result (run isTS s evs)) = [e]"
proof (induction evs arbitrary: s)
  case Nil
  then show ?case by simp
next
  case (Cons ev evs)
  from Cons.prems have "filter (\<lambda>r. assetKey r = A) (result (step isTS s ev)) = [e]"
    by (cases ev) (simp_all add: kept_resolved)
  with Cons show ?case by simp
qed

lemma present_resolved:
  assumes "filter (\<lambda>r. assetKey r = A) (result s) \<noteq> []"
  shows "filter (\<lambda>r. assetKey r = A) (result (queryResolved isTS s i data)) \<noteq> []"
proof (cases "at (inflight s) i")
  case None
  with assms show ?thesis by (simp add: queryResolved_def)
next
  case (Some kh)
  obtain k h where kh: "kh = (k, h)" by (cases kh)
  show ?thesis
  proof (cases "buildPartitionHealthData isTS data k")
    case (Inl err)
    with Some kh assms show ?thesis by (simp add: queryResolved_def)
  next
    case (Inr loaded)
    then have k: "assetKey loaded = k" by (rule build_assetKey)
    show ?thesis
    proof (cases "k = A")
      case True
      with Inr Some kh k show ?thesis by (simp add: queryResolved_def)
    next
      case False
      then have "filter (\<lambda>r. assetKey r = A) (filter (\<lambda>r. assetKey r \<noteq> k) (result s))
                   = filter (\<lambda>r. assetKey r = A) (result s)"
        by (auto intro: filter_cong)
      with Inr Some kh k assms show ?thesis by (simp add: queryResolved_def)
    qed
  qed
qed

lemma present_run:
  "filter (\<lambda>r. assetKey r = A) (result s) \<noteq> [] \<Longrightarrow>
   filter (\<lambda>r. assetKey r = A) (result (run isTS s evs)) \<noteq> []"
proof (induction evs arbitrary: s)
  case Nil
  then show ?case by simp
next
  case (Cons ev evs)
  from Cons.prems have "filter (\<lambda>r. assetKey r = A) (result (step isTS s ev)) \<noteq> []"
    by (cases ev) (simp_all add: present_resolved)
  with Cons.IH show ?case by simp
qed

lemma returned_for_key:
  assumes "A \<in> set keys"
  shows "filter (\<lambda>r. assetKey r = A) (fst (usePartitionHealthData s keys h))
           = filter (\<lambda>r. assetKey r = A) (result s)"
proof -
  have "filter (\<lambda>x. assetKey x \<in> set keys \<and> assetKey x = A) xs
          = filter (\<lambda>x. assetKey x = A) xs" for xs :: "CacheEntry list"
    using assms by (intro filter_cong) auto
  then show ?thesis by (simp add: returned_request)
qed

text \<open>
  Claim C6, as the code has it. Let \<open>e\<close> be the entry cached for the key \<open>A\<close>, fetched
  at a hint other than \<open>h2\<close>, and let the request for \<open>[A]\<close> with hint \<open>h2\<close> arrive
  as a new pair of missing key and hint, so that the dependencies of the first
  \<^verbatim>\<open>useMemo\<close> change. The request returns \<open>e\<close> and starts a fetch of \<open>A\<close> at \<open>h2\<close>.
  After any events in which no fetch for \<open>A\<close> resolves, a request whose keys include
  \<open>A\<close>, with any hint, still returns \<open>e\<close> as its entry for \<open>A\<close>; and after any
  events at all, such a request returns some entry for \<open>A\<close>: a loaded key is never
  reported as absent.
\<close>

theorem stale_entry_served_during_refresh:
  assumes "filter (\<lambda>r. assetKey r = A) (result s) = [e]"
    and "fetchedAt e \<noteq> h2"
    and "memoDeps s \<noteq> Some (Some A, h2)"
    and "noneResolvedFor isTS A (snd (usePartitionHealthData s [A] h2)) evs"
    and "A \<in> set keys"
  shows "(let (r, s') = usePartitionHealthData s [A] h2
          in r = [e] \<and> inflight s' = inflight s @ [(A, h2)]
             \<and> filter (\<lambda>r. assetKey r = A)
                  (fst (usePartitionHealthData (run isTS s' evs) keys h)) = [e]
             \<and> filter (\<lambda>r. assetKey r = A)
                  (fst (usePartitionHealthData (run isTS s' anyEvents) keys h)) \<noteq> [])"
proof -
  let ?s' = "snd (usePartitionHealthData s [A] h2)"
  have "\<not> list_ex (\<lambda>r. assetKey r = A \<and> fetchedAt r = h2) (result s)"
  proof
    assume "list_ex (\<lambda>r. assetKey r = A \<and> fetchedAt r = h2) (result s)"
    then obtain r where "r \<in> set (result s)" "assetKey r = A" "fetchedAt r = h2"
      by (auto simp: list_ex_iff)
    then have "r \<in> set (filter (\<lambda>r. assetKey r = A) (result s))" by simp
    with assms(1) have "r = e" by simp
    with \<open>fetchedAt r = h2\<close> assms(2) show False by simp
  qed
  then have m: "missingKeyJSON (result s) [A] h2 = Some A"
    by (simp add: missingKeyJSON_def)
  have r: "fst (usePartitionHealthData s [A] h2) = [e]"
    using assms(1) by (simp add: returned_request)
  have i: "inflight ?s' = inflight s @ [(A, h2)]"
    using m assms(3) by (simp add: usePartitionHealthData_def Let_def)
  have start: "filter (\<lambda>r. assetKey r = A) (result ?s') = [e]"
    using assms(1) by simp
  from kept_run [OF assms(4) start]
  have kept: "filter (\<lambda>r. assetKey r = A)
          (fst (usePartitionHealthData (run isTS ?s' evs) keys h)) = [e]"
    by (simp add: returned_for_key [OF assms(5)])
  from start have "filter (\<lambda>r. assetKey r = A) (result ?s') \<noteq> []" by simp
  from present_run [OF this, of isTS anyEvents]
  have present: "filter (\<lambda>r. assetKey r = A)
          (fst (usePartitionHealthData (run isTS ?s' anyEvents) keys h)) \<noteq> []"
    by (simp add: returned_for_key [OF assms(5)])
  from r i kept present show ?thesis by (simp add: split_def)
qed

text \<open>
  The theorem at the key \<^verbatim>\<open>A\<close> cached at \<^verbatim>\<open>h1\<close>, followed by two more requests, or
  by the completion of the refetch.
\<close>

theorem stale_entry_served_during_refresh_witness:
  "run noTimeseries initialState
       [Request [[''A'']] ''h1'', Resolved 0 olderData, Request [[''A'']] ''h1''] = cachedAtH1
   \<and> filter (\<lambda>r. assetKey r = [''A'']) (result cachedAtH1) = [olderEntry]
   \<and> fetchedAt olderEntry \<noteq> ''h2''
   \<and> memoDeps cachedAtH1 \<noteq> Some (Some [''A''], ''h2'')
   \<and> noneResolvedFor noTimeseries [''A''] (snd (usePartitionHealthData cachedAtH1 [[''A'']] ''h2''))
        [Request [[''A'']] ''h2'', Request [[''A''], [''B'']] ''h3'']
   \<and> (let (r, s') = usePartitionHealthData cachedAtH1 [[''A'']] ''h2''
        in r = [olderEntry] \<and> inflight s' = [([''A''], ''h2'')]
           \<and> filter (\<lambda>r. assetKey r = [''A''])
                (fst (usePartitionHealthData
                        (run noTimeseries s'
                           [Request [[''A'']] ''h2'', Request [[''A''], [''B'']] ''h3''])
                        [[''A'']] ''h2'')) = [olderEntry]
           \<and> filter (\<lambda>r. assetKey r = [''A''])
                (fst (usePartitionHealthData
                        (run noTimeseries s' [Resolved 0 newerData])
                        [[''A'']] ''h2'')) \<noteq> [])"
proof -
  have 1: "filter (\<lambda>r. assetKey r = [''A'']) (result cachedAtH1) = [olderEntry]"
    by (simp add: cachedAtH1_def olderEntry_def)
  have 2: "fetchedAt olderEntry \<noteq> ''h2''" by (simp add: olderEntry_def)
  have 3: "memoDeps cachedAtH1 \<noteq> Some (Some [''A''], ''h2'')" by (simp add: cachedAtH1_def)
  have 4: "noneResolvedFor noTimeseries [''A'']
             (snd (usePartitionHealthData cachedAtH1 [[''A'']] ''h2''))
             [Request [[''A'']] ''h2'', Request [[''A''], [''B'']] ''h3'']"
    by simp
  have 5: "[''A''] \<in> set [[''A'']]" by simp
  have 6: "inflight cachedAtH1 = []" by (simp add: cachedAtH1_def)
  have 7: "run noTimeseries initialState
       [Request [[''A'']] ''h1'', Resolved 0 olderData, Request [[''A'']] ''h1''] = cachedAtH1"
    by (simp add: initialState_def usePartitionHealthData_def missingKeyJSON_def
        queryResolved_def at_def removeAt_def Let_def build_olderData cachedAtH1_def
        olderEntry_def PartitionHealthData.defs)
  from stale_entry_served_during_refresh [OF 1 2 3 4 5, of "''h2''" "[Resolved 0 newerData]"]
    1 2 3 4 6 7
  show ?thesis by (simp add: split_def)
qed

text \<open>
  Claim C6 as stated fails in two places. When the query of a refetch under \<^verbatim>\<open>h2\<close>
  has been rejected, the key \<^verbatim>\<open>A\<close> is cached at \<^verbatim>\<open>h1\<close> and nothing is in flight,
  and a request for \<^verbatim>\<open>[A]\<close> with \<^verbatim>\<open>h2\<close> starts no fetch: the dependencies of the
  memo are the same as at the previous render, and the state is unchanged. When a
  fetch issued under \<^verbatim>\<open>h0\<close> is still in flight while \<^verbatim>\<open>A\<close> is cached at \<^verbatim>\<open>h1\<close>,
  the request with \<^verbatim>\<open>h2\<close> starts the refetch, the fetch of \<^verbatim>\<open>h0\<close> resolves first,
  and the next request returns the entry tagged \<^verbatim>\<open>h0\<close>, not the one tagged \<^verbatim>\<open>h1\<close>,
  while the refetch is still in flight.
\<close>

theorem refetch_counterexample:
  "run noTimeseries initialState refetchRejected = afterRejected
   \<and> result afterRejected = [olderEntry]
   \<and> fetchedAt olderEntry = ''h1''
   \<and> inflight afterRejected = []
   \<and> usePartitionHealthData afterRejected [[''A'']] ''h2'' = ([olderEntry], afterRejected)
   \<and> run noTimeseries initialState earlierFetchPending = withEarlierFetch
   \<and> result withEarlierFetch = [olderEntry]
   \<and> inflight (snd (usePartitionHealthData withEarlierFetch [[''A'']] ''h2''))
       = [([''A''], ''h0''), ([''A''], ''h2'')]
   \<and> run noTimeseries withEarlierFetch [Request [[''A'']] ''h2'', Resolved 0 newerData]
       = earlierResolved
   \<and> inflight earlierResolved = [([''A''], ''h2'')]
   \<and> fst (usePartitionHealthData earlierResolved [[''A'']] ''h2'') = [earlierEntry]
   \<and> fetchedAt earlierEntry = ''h0''"
proof -
  have a: "run noTimeseries initialState refetchRejected = afterRejected"
    by (simp add: refetchRejected_def afterRejected_def initialState_def
        usePartitionHealthData_def missingKeyJSON_def queryResolved_def queryRejected_def
        at_def removeAt_def Let_def build_olderData olderEntry_def PartitionHealthData.defs)
  have b: "usePartitionHealthData afterRejected [[''A'']] ''h2'' = ([olderEntry], afterRejected)"
    by (simp add: afterRejected_def usePartitionHealthData_def missingKeyJSON_def Let_def
        olderEntry_def)
  have c: "run noTimeseries initialState earlierFetchPending = withEarlierFetch"
    by (simp add: earlierFetchPending_def withEarlierFetch_def initialState_def
        usePartitionHealthData_def missingKeyJSON_def queryResolved_def
        at_def removeAt_def Let_def build_olderData olderEntry_def PartitionHealthData.defs)
  have d: "inflight (snd (usePartitionHealthData withEarlierFetch [[''A'']] ''h2''))
       = [([''A''], ''h0''), ([''A''], ''h2'')]"
    by (simp add: withEarlierFetch_def usePartitionHealthData_def missingKeyJSON_def Let_def
        olderEntry_def)
  have e: "run noTimeseries withEarlierFetch [Request [[''A'']] ''h2'', Resolved 0 newerData]
       = earlierResolved"
    by (simp add: withEarlierFetch_def earlierResolved_def earlierEntry_def
        usePartitionHealthData_def missingKeyJSON_def queryResolved_def
        at_def removeAt_def Let_def build_newerData olderEntry_def PartitionHealthData.defs)
  have f: "fst (usePartitionHealthData earlierResolved [[''A'']] ''h2'') = [earlierEntry]"
    by (simp add: earlierResolved_def earlierEntry_def returned_request)
  have g: "result afterRejected = [olderEntry] \<and> fetchedAt olderEntry = ''h1''
           \<and> inflight afterRejected = [] \<and> result withEarlierFetch = [olderEntry]
           \<and> inflight earlierResolved = [([''A''], ''h2'')] \<and> fetchedAt earlierEntry = ''h0''"
    by (simp add: afterRejected_def olderEntry_def withEarlierFetch_def earlierResolved_def
        earlierEntry_def)
  from a b c d e f g show ?thesis by simp
qed

section \<open>Overlapping fetches for one key\<close>

text \<open>
  Claim C2, as the code has it. Whenever a fetch for a key resolves and its index is
  built, the entry stored for that key becomes the result of that fetch, tagged with
  the hint under which that fetch was issued, whatever was stored before; the entries
  of the other keys are unchanged. Of two fetches in flight for one key, the entry
  stored once both have resolved is the result of the one that resolved last; no
  response is discarded.
\<close>

theorem completion_replaces_entry:
  assumes "at (inflight s) i = Some (k, h)"
    and "buildPartitionHealthData isTS data k = Inr loaded"
  shows "filter (\<lambda>r. assetKey r = k) (result (queryResolved isTS s i data))
           = [PartitionHealthData.extend loaded \<lparr>fetchedAt = h\<rparr>]
         \<and> filter (\<lambda>r. assetKey r \<noteq> k) (result (queryResolved isTS s i data))
           = filter (\<lambda>r. assetKey r \<noteq> k) (result s)"
  using assms build_assetKey [OF assms(2)] by (simp add: queryResolved_def)

text \<open>The theorem at the completion of the older fetch of the example execution.\<close>

theorem completion_replaces_entry_witness:
  "at (inflight afterNewer) 0 = Some ([''A''], ''h1'')
   \<and> buildPartitionHealthData noTimeseries olderData [''A'']
       = Inr \<lparr>assetKey = [''A''], dimensions = [letters], isRangeDataInverted = False,
              rangeDimensions = [letters], ranges = []\<rparr>
   \<and> result afterNewer = [newerEntry]
   \<and> filter (\<lambda>r. assetKey r = [''A''])
        (result (queryResolved noTimeseries afterNewer 0 olderData)) = [olderEntry]"
proof -
  have 1: "at (inflight afterNewer) 0 = Some ([''A''], ''h1'')"
    by (simp add: afterNewer_def at_def)
  from completion_replaces_entry [OF 1 build_olderData] 1 build_olderData
  show ?thesis by (simp add: olderEntry_def PartitionHealthData.defs afterNewer_def)
qed

text \<open>
  Claim C2 as stated fails. The fetch issued under \<^verbatim>\<open>h1\<close> is in flight when the
  fetch issued under \<^verbatim>\<open>h2\<close> resolves and stores its entry; when the older fetch
  resolves afterwards, its response replaces that entry, and the stored entry is the
  older request's result, tagged \<^verbatim>\<open>h1\<close>.
\<close>

theorem stale_response_overwrites_counterexample:
  "run noTimeseries initialState overlappingFetches = afterNewer
   \<and> result afterNewer = [newerEntry]
   \<and> fetchedAt newerEntry = ''h2''
   \<and> inflight afterNewer = [([''A''], ''h1'')]
   \<and> result (run noTimeseries initialState (overlappingFetches @ [Resolved 0 olderData]))
       = [olderEntry]
   \<and> fetchedAt olderEntry = ''h1''"
  by (simp add: run_overlappingFetches afterNewer_def)
     (simp add: overlappingFetches_def initialState_def usePartitionHealthData_def
        missingKeyJSON_def queryResolved_def at_def removeAt_def Let_def build_newerData
        build_olderData newerEntry_def olderEntry_def PartitionHealthData.defs)

end
